theory Spec2Isabelle
  imports Main
begin

section \<open>The builder and its heap\<close>

text \<open>
  A \<open>*TomlBuilder\<close> is a pointer to a struct with the public field \<open>IndentSize\<close> and the
  private fields \<open>indentation\<close> and \<open>buf\<close>, the latter a pointer to a \<open>bytes.Buffer\<close>.
  A table callback receives a second builder struct that points to the same buffer, so the
  model keeps an explicit store: builders and buffers live in two arrays of a heap, and a
  pointer is an index into its array. Allocation appends to the array. A pointer that does
  not point into the heap stands for \<open>nil\<close>; dereferencing it panics.

  \<open>IndentSize\<close> is a Go \<open>int\<close> and is carried as an \<open>int\<close>. The only arithmetic on it is
  the slice bound \<open>len(w.indentation) - w.IndentSize\<close> of \<open>unindent\<close>, computed once
  \<open>w.IndentSize < len(w.indentation)\<close> is known. For \<open>0 \<le> IndentSize\<close> the difference
  lies between 1 and the length and cannot overflow; for \<open>IndentSize < 0\<close> it exceeds the
  length, or wraps to a negative number, and the slice expression panics in both cases.
  The unbounded difference with the bounds check of the slice expression therefore gives the
  result of the machine subtraction at either width of \<open>int\<close>.
\<close>

datatype panic = NilDereference | SliceBoundsOutOfRange | CallbackPanic string

record TomlBuilder =
  IndentSize :: int
  indentation :: string
  buf :: nat

record heap =
  builders :: "TomlBuilder list"
  buffers :: "string list"

definition builder_at :: "heap \<Rightarrow> nat \<Rightarrow> TomlBuilder option" where
  "builder_at h p = (if p < length (builders h) then Some (builders h ! p) else None)"

definition buffer_at :: "heap \<Rightarrow> nat \<Rightarrow> string option" where
  "buffer_at h p = (if p < length (buffers h) then Some (buffers h ! p) else None)"

text \<open>Sequencing of calls that may panic: a panic ends the run.\<close>

definition andThen :: "panic + 'a \<Rightarrow> ('a \<Rightarrow> panic + 'b) \<Rightarrow> panic + 'b" where
  "andThen r k = (case r of Inl e \<Rightarrow> Inl e | Inr x \<Rightarrow> k x)"

text \<open>Reading a field through a builder pointer.\<close>

definition deref :: "nat \<Rightarrow> heap \<Rightarrow> panic + TomlBuilder" where
  "deref w h = (case builder_at h w of None \<Rightarrow> Inl NilDereference | Some b \<Rightarrow> Inr b)"

text \<open>
  \<open>New\<close> allocates an empty buffer and a builder with \<open>IndentSize\<close> 2 and an empty
  indentation; it returns the pointer and the heap.
\<close>

definition New :: "heap \<Rightarrow> nat \<times> heap" where
  "New h =
     (length (builders h),
      h\<lparr>builders := builders h @
           [\<lparr>IndentSize = 2, indentation = [], buf = length (buffers h)\<rparr>],
        buffers := buffers h @ [[]]\<rparr>)"

definition empty_heap :: heap where
  "empty_heap = \<lparr>builders = [], buffers = []\<rparr>"

text \<open>An assignment \<open>w.IndentSize = n\<close> by the caller: the field is public.\<close>

definition set_IndentSize :: "nat \<Rightarrow> int \<Rightarrow> heap \<Rightarrow> panic + heap" where
  "set_IndentSize w n h =
     andThen (deref w h) (\<lambda>b. Inr (h\<lparr>builders := (builders h)[w := b\<lparr>IndentSize := n\<rparr>]\<rparr>))"

text \<open>
  \<open>write\<close> of the source (\<open>writef\<close> here, \<open>write\<close> being a keyword): the argument \<open>s\<close> is
  the result of \<open>fmt.Sprintf(format, args...)\<close>, which each caller below spells out. The
  indentation is put in front and the bytes are appended to the buffer.
\<close>

definition writef :: "nat \<Rightarrow> string \<Rightarrow> heap \<Rightarrow> panic + heap" where
  "writef w s h =
     andThen (deref w h) (\<lambda>b.
       case buffer_at h (buf b) of
         None \<Rightarrow> Inl NilDereference
       | Some bs \<Rightarrow> Inr (h\<lparr>buffers := (buffers h)[buf b := bs @ indentation b @ s]\<rparr>))"

definition indent :: "nat \<Rightarrow> heap \<Rightarrow> panic + heap" where
  "indent w h =
     andThen (deref w h) (\<lambda>b.
       Inr (h\<lparr>builders := (builders h)[w := b\<lparr>indentation := indentation b @ ''  ''\<rparr>]\<rparr>))"

definition unindent :: "nat \<Rightarrow> heap \<Rightarrow> panic + heap" where
  "unindent w h =
     andThen (deref w h) (\<lambda>b.
       if length (indentation b) = 0 then Inr h
       else if int (length (indentation b)) \<le> IndentSize b
       then Inr (h\<lparr>builders := (builders h)[w := b\<lparr>indentation := []\<rparr>]\<rparr>)
       else
         let hi = int (length (indentation b)) - IndentSize b in
         if hi < 0 \<or> int (length (indentation b)) < hi then Inl SliceBoundsOutOfRange
         else Inr (h\<lparr>builders :=
                (builders h)[w := b\<lparr>indentation := take (nat hi) (indentation b)\<rparr>]\<rparr>))"

text \<open>
  \<open>String\<close> returns the bytes of the buffer. \<open>(*bytes.Buffer).String\<close> does not panic
  on a \<open>nil\<close> buffer: it returns the text \<open><nil>\<close>.
\<close>

definition String :: "nat \<Rightarrow> heap \<Rightarrow> panic + string" where
  "String w h =
     andThen (deref w h) (\<lambda>b.
       case buffer_at h (buf b) of None \<Rightarrow> Inr ''<nil>'' | Some bs \<Rightarrow> Inr bs)"

section \<open>Formatting of values\<close>

text \<open>
  Integers print in base 10 (\<open>%v\<close> and \<open>%d\<close> of an \<open>int\<close>), with a minus sign when
  negative. Nothing is computed with the value of \<open>AddInt\<close>, so the Go \<open>int\<close> is carried as
  an \<open>int\<close>.
\<close>

definition digit :: "nat \<Rightarrow> char" where
  "digit n = ''0123456789'' ! n"

fun digits10 :: "nat \<Rightarrow> string" where
  "digits10 n = (if n < 10 then [digit n] else digits10 (n div 10) @ [digit (n mod 10)])"

declare digits10.simps [simp del]

definition formatInt :: "int \<Rightarrow> string" where
  "formatInt i = (if i < 0 then ''-'' @ digits10 (nat (- i)) else digits10 (nat i))"

definition FormatBool :: "bool \<Rightarrow> string" where
  "FormatBool b = (if b then ''true'' else ''false'')"

text \<open>
  A \<open>float64\<close> is printed by Go's \<open>strconv\<close> in two steps. The first computes the
  \<open>decimalSlice\<close> of the value: the shortest string of decimal digits \<open>d\<close> (no leading and
  no trailing zero, none at all for zero) and the position \<open>dp\<close> of the decimal point such
  that \<open>0.d \<times> 10^dp\<close> reads back as the same \<open>float64\<close>. The second lays these digits
  out in the format asked for. The first step is IEEE-754 arithmetic of the standard library
  and is one-to-one on finite values, so a finite \<open>float64\<close> is carried here as its sign
  and its \<open>decimalSlice\<close>: the value 50 is \<open>Finite False ''5'' 2\<close>, 0.004 is
  \<open>Finite False ''4'' (-2)\<close>, one million is \<open>Finite False ''1'' 7\<close>. The second step
  (\<open>fmtE\<close>, \<open>fmtF\<close> and the choice between them for \<open>%g\<close> in \<open>strconv/ftoa.go\<close>) is
  embedded as it is written there. Decimal exponents of a \<open>float64\<close> have at most three
  digits.
\<close>

datatype float64 = Finite bool string int | Inf bool | NaN

definition exponent_digits :: "nat \<Rightarrow> string" where
  "exponent_digits e =
     (if e < 10 then [CHR ''0'', digit e]
      else if e < 100 then [digit (e div 10), digit (e mod 10)]
      else [digit (e div 100), digit ((e div 10) mod 10), digit (e mod 10)])"

definition fmtE :: "bool \<Rightarrow> string \<Rightarrow> int \<Rightarrow> int \<Rightarrow> string" where
  "fmtE neg d dp prec =
     (if neg then ''-'' else []) @
     [if d = [] then CHR ''0'' else hd d] @
     (if 0 < prec
      then ''.'' @ take (nat prec) (drop 1 d) @
           replicate (nat prec - length (take (nat prec) (drop 1 d))) CHR ''0''
      else []) @
     ''e'' @
     (let exp = (if d = [] then 0 else dp - 1) in
      (if exp < 0 then ''-'' else ''+'') @ exponent_digits (nat \<bar>exp\<bar>))"

definition fmtF :: "bool \<Rightarrow> string \<Rightarrow> int \<Rightarrow> int \<Rightarrow> string" where
  "fmtF neg d dp prec =
     (if neg then ''-'' else []) @
     (if 0 < dp then take (nat dp) d @ replicate (nat dp - length d) CHR ''0'' else ''0'') @
     (if 0 < prec
      then ''.'' @ map (\<lambda>i. let j = dp + int i in
                               if 0 \<le> j \<and> j < int (length d) then d ! nat j else CHR ''0'')
                      [0..<nat prec]
      else [])"

text \<open>
  \<open>fmt.Sprintf("%v", val)\<close> of a \<open>float64\<close> is \<open>%g\<close> with the shortest precision:
  \<open>%e\<close> when the decimal exponent is below \<open>-4\<close> or at least 6, \<open>%f\<close> otherwise.
\<close>

definition Sprint_float :: "float64 \<Rightarrow> string" where
  "Sprint_float val =
     (case val of
        NaN \<Rightarrow> ''NaN''
      | Inf neg \<Rightarrow> (if neg then ''-Inf'' else ''+Inf'')
      | Finite neg d dp \<Rightarrow>
          let prec = int (length d); eprec = 6; exp = dp - 1 in
          if exp < - 4 \<or> eprec \<le> exp then fmtE neg d dp (prec - 1)
          else fmtF neg d dp (max (prec - dp) 0))"

text \<open>\<open>strconv.FormatFloat(val, 'f', -1, 64)\<close>: all shortest digits, never an exponent.\<close>

definition FormatFloat_f :: "float64 \<Rightarrow> string" where
  "FormatFloat_f val =
     (case val of
        NaN \<Rightarrow> ''NaN''
      | Inf neg \<Rightarrow> (if neg then ''-Inf'' else ''+Inf'')
      | Finite neg d dp \<Rightarrow> fmtF neg d dp (max (int (length d) - dp) 0))"

text \<open>
  The test \<open>val == float64(int64(val))\<close>. For a finite \<open>val\<close> from \<open>-2^63\<close> up to, but not
  including, \<open>2^63\<close> the conversion to \<open>int64\<close> truncates and the conversion back is exact
  on the truncated value, so the test holds exactly when \<open>val\<close> has no fractional part: its
  shortest digits end at or before the decimal point. Outside that range, and for NaN and
  the infinities, the result of \<open>int64(val)\<close> depends on the implementation; whatever it is,
  converting it back gives a number between \<open>-2^63\<close> and \<open>2^63\<close>, which can equal \<open>val\<close>
  only for \<open>val = 2^63\<close>. Whether it does so there (a saturating conversion) is the
  parameter \<open>sat\<close>. The shortest decimal of \<open>2^63\<close> is \<open>9223372036854776000\<close>.
\<close>

definition digit_value :: "char \<Rightarrow> int" where
  "digit_value c = of_char c - 48"

definition decimal_value :: "string \<Rightarrow> int" where
  "decimal_value d = foldl (\<lambda>a c. 10 * a + digit_value c) 0 d"

definition int64_roundtrip :: "bool \<Rightarrow> float64 \<Rightarrow> bool" where
  "int64_roundtrip sat val =
     (case val of
        NaN \<Rightarrow> False
      | Inf neg \<Rightarrow> False
      | Finite neg d dp \<Rightarrow>
          if int (length d) \<le> dp
          then (let n = decimal_value d * 10 ^ nat (dp - int (length d)) in
                if neg then n \<le> 9223372036854776000
                else n < 9223372036854776000 \<or> (n = 9223372036854776000 \<and> sat))
          else False)"

definition formatFloat :: "bool \<Rightarrow> float64 \<Rightarrow> string" where
  "formatFloat sat val =
     (if int64_roundtrip sat val then Sprint_float val @ ''.0'' else FormatFloat_f val)"

section \<open>Emitters\<close>

definition AddNewLine :: "nat \<Rightarrow> heap \<Rightarrow> panic + heap" where
  "AddNewLine w h = writef w ''\<newline>'' h"

definition AddComment :: "nat \<Rightarrow> string \<Rightarrow> heap \<Rightarrow> panic + heap" where
  "AddComment w msg h = writef w (''# '' @ msg) h"

definition AddString :: "nat \<Rightarrow> string \<Rightarrow> string \<Rightarrow> heap \<Rightarrow> panic + heap" where
  "AddString w key v h = writef w (key @ '' = \"'' @ v @ ''\"\<newline>'') h"

definition AddInt :: "nat \<Rightarrow> string \<Rightarrow> int \<Rightarrow> heap \<Rightarrow> panic + heap" where
  "AddInt w key v h = writef w (key @ '' = '' @ formatInt v @ ''\<newline>'') h"

definition AddFloat :: "bool \<Rightarrow> nat \<Rightarrow> string \<Rightarrow> float64 \<Rightarrow> heap \<Rightarrow> panic + heap" where
  "AddFloat sat w key v h = writef w (key @ '' = '' @ formatFloat sat v @ ''\<newline>'') h"

definition AddBool :: "nat \<Rightarrow> string \<Rightarrow> bool \<Rightarrow> heap \<Rightarrow> panic + heap" where
  "AddBool w key v h = writef w (key @ '' = '' @ FormatBool v @ ''\<newline>'') h"

text \<open>The loop of \<open>addArray\<close> over the elements.\<close>

fun write_elements :: "nat \<Rightarrow> string list \<Rightarrow> heap \<Rightarrow> panic + heap" where
  "write_elements w [] h = Inr h"
| "write_elements w (v # vs) h = andThen (writef w (v @ '',\<newline>'') h) (write_elements w vs)"

definition addArray :: "nat \<Rightarrow> string \<Rightarrow> string list \<Rightarrow> heap \<Rightarrow> panic + heap" where
  "addArray w key array h =
     andThen (writef w (key @ '' = [\<newline>'') h) (\<lambda>h1.
     andThen (indent w h1) (\<lambda>h2.
     andThen (write_elements w array h2) (\<lambda>h3.
     andThen (unindent w h3) (\<lambda>h4.
     writef w '']\<newline>'' h4))))"

definition AddStringArray :: "nat \<Rightarrow> string \<Rightarrow> string list \<Rightarrow> heap \<Rightarrow> panic + heap" where
  "AddStringArray w key array h = addArray w key (map (\<lambda>v. ''\"'' @ v @ ''\"'') array) h"

definition AddIntArray :: "nat \<Rightarrow> string \<Rightarrow> int list \<Rightarrow> heap \<Rightarrow> panic + heap" where
  "AddIntArray w key array h = addArray w key (map formatInt array) h"

definition AddFloatArray :: "bool \<Rightarrow> nat \<Rightarrow> string \<Rightarrow> float64 list \<Rightarrow> heap \<Rightarrow> panic + heap" where
  "AddFloatArray sat w key array h = addArray w key (map (formatFloat sat) array) h"

definition AddBoolArray :: "nat \<Rightarrow> string \<Rightarrow> bool list \<Rightarrow> heap \<Rightarrow> panic + heap" where
  "AddBoolArray w key array h = addArray w key (map FormatBool array) h"

text \<open>
  A callback is a Go function value: \<open>nil\<close> (\<open>None\<close>), or a function that is handed the
  pointer to the child builder and runs on the heap. Calling \<open>nil\<close> panics; a panic inside
  the callback is the panic of the call. The child is a new struct, allocated at the end of
  the builder array, with the three fields of the parent copied into it.
\<close>

type_synonym callback = "(nat \<Rightarrow> heap \<Rightarrow> panic + heap) option"

definition call :: "callback \<Rightarrow> nat \<Rightarrow> heap \<Rightarrow> panic + heap" where
  "call f c h = (case f of None \<Rightarrow> Inl NilDereference | Some g \<Rightarrow> g c h)"

definition alloc_builder :: "TomlBuilder \<Rightarrow> heap \<Rightarrow> nat \<times> heap" where
  "alloc_builder b h = (length (builders h), h\<lparr>builders := builders h @ [b]\<rparr>)"

definition AddTable :: "nat \<Rightarrow> string \<Rightarrow> callback \<Rightarrow> heap \<Rightarrow> panic + heap" where
  "AddTable w name wr h =
     andThen (writef w (''['' @ name @ '']\<newline>'') h) (\<lambda>h1.
     andThen (deref w h1) (\<lambda>b.
       case alloc_builder
              \<lparr>IndentSize = IndentSize b, indentation = indentation b, buf = buf b\<rparr> h1 of
         (c, h2) \<Rightarrow> call wr c h2))"

definition AddArrayOfTables :: "nat \<Rightarrow> string \<Rightarrow> callback \<Rightarrow> heap \<Rightarrow> panic + heap" where
  "AddArrayOfTables w name wr h =
     andThen (writef w (''[['' @ name @ '']]\<newline>'') h) (\<lambda>h1.
     andThen (deref w h1) (\<lambda>b.
       case alloc_builder
              \<lparr>IndentSize = IndentSize b, indentation = indentation b, buf = buf b\<rparr> h1 of
         (c, h2) \<Rightarrow> call wr c h2))"

section \<open>Runs and the text of an array\<close>

text \<open>
  A caller's sequence of calls, each run on the heap the previous one left. \<open>root\<close> and
  \<open>heap0\<close> are the pointer and the heap that \<open>New()\<close> returns in an empty heap.
\<close>

fun run :: "(heap \<Rightarrow> panic + heap) list \<Rightarrow> heap \<Rightarrow> panic + heap" where
  "run [] h = Inr h"
| "run (c # cs) h = andThen (c h) (run cs)"

definition root :: nat where
  "root = fst (New empty_heap)"

definition heap0 :: heap where
  "heap0 = snd (New empty_heap)"

text \<open>The callback of the table \<open>g\<close> in the shopping-list example.\<close>

definition populate_g :: "nat \<Rightarrow> heap \<Rightarrow> panic + heap" where
  "populate_g b = run [AddString b ''c'' ''y'', AddInt b ''n'' 3]"

text \<open>
  A callback that changes both fields of the builder it is handed and opens a table of its
  own on it.
\<close>

definition nested :: "nat \<Rightarrow> heap \<Rightarrow> panic + heap" where
  "nested b = run [set_IndentSize b 7, indent b, AddTable b ''x'' (Some populate_g)]"

text \<open>
  A callback that is a closure over the root builder: it does not use the child it is handed
  and assigns to the \<open>IndentSize\<close> of the root.
\<close>

definition assign_parent :: "nat \<Rightarrow> heap \<Rightarrow> panic + heap" where
  "assign_parent b = set_IndentSize root 9"

text \<open>A callback that panics.\<close>

definition panicking :: "nat \<Rightarrow> heap \<Rightarrow> panic + heap" where
  "panicking b h = Inl (CallbackPanic ''boom'')"

text \<open>
  The prefix that \<open>unindent\<close> leaves behind when its slice expression is in bounds, as a
  function of \<open>IndentSize\<close> and the prefix before.
\<close>

definition unindented :: "int \<Rightarrow> string \<Rightarrow> string" where
  "unindented n s =
     (if length s = 0 then s
      else if int (length s) \<le> n then []
      else take (nat (int (length s) - n)) s)"

text \<open>
  The text of an array as the specification describes it: the opening line at the prefix
  \<open>ind\<close>, one line for each element in the order of the list, written two spaces deeper and
  ended by a comma, and the closing bracket at the prefix \<open>cl\<close>.
\<close>

definition array_text :: "string \<Rightarrow> string \<Rightarrow> string \<Rightarrow> string list \<Rightarrow> string" where
  "array_text ind cl key vals =
     ind @ key @ '' = [\<newline>'' @
     concat (map (\<lambda>v. ind @ ''  '' @ v @ '',\<newline>'') vals) @
     cl @ '']\<newline>''"

text \<open>
  The heap in which a table callback starts: the header line is in the buffer and the child,
  a copy of the three fields of the parent \<open>b\<close>, is the last builder allocated.
\<close>

definition table_entry :: "TomlBuilder \<Rightarrow> string \<Rightarrow> string \<Rightarrow> heap \<Rightarrow> heap" where
  "table_entry b bs header h =
     h\<lparr>buffers := (buffers h)[buf b := bs @ indentation b @ header],
       builders := builders h @
          [\<lparr>IndentSize = IndentSize b, indentation = indentation b, buf = buf b\<rparr>]\<rparr>"

section \<open>Reading a decimal numeral\<close>

text \<open>
  The digits of a non-zero \<open>float64\<close> in the model: decimal digits, at least one, the
  first and the last not zero.
\<close>

definition is_digit :: "char \<Rightarrow> bool" where
  "is_digit c = (c \<in> set ''0123456789'')"

definition shortest_digits :: "string \<Rightarrow> bool" where
  "shortest_digits d =
     (d \<noteq> [] \<and> list_all is_digit d \<and> hd d \<noteq> CHR ''0'' \<and> last d \<noteq> CHR ''0'')"

text \<open>
  Reading a plain decimal numeral back: an optional minus sign, digits, a point, digits.
  \<open>decimal_of\<close> takes the digits \<open>ds\<close> of the numeral, of which \<open>n\<close> stand in front of
  the point, and gives the number they denote in the form of the model: zeros in front and
  at the end are dropped, and each zero dropped in front moves the point one place.
  A text that is not such a numeral, one with an exponent for instance, reads as \<open>None\<close>.
\<close>

definition decimal_of :: "bool \<Rightarrow> string \<Rightarrow> nat \<Rightarrow> float64" where
  "decimal_of neg ds n =
     (let lz = length (takeWhile (\<lambda>c. c = CHR ''0'') ds);
          d = rev (dropWhile (\<lambda>c. c = CHR ''0'') (rev (drop lz ds)))
      in if d = [] then Finite neg [] 0 else Finite neg d (int n - int lz))"

definition parse_decimal :: "string \<Rightarrow> float64 option" where
  "parse_decimal s =
     (let neg = (s \<noteq> [] \<and> hd s = CHR ''-'');
          body = (if neg then tl s else s);
          ip = takeWhile (\<lambda>c. c \<noteq> CHR ''.'') body;
          fp = drop 1 (dropWhile (\<lambda>c. c \<noteq> CHR ''.'') body)
      in if ip = [] \<or> \<not> list_all is_digit (ip @ fp) then None
         else Some (decimal_of neg (ip @ fp) (length ip)))"

section \<open>Basic facts about the heap operations\<close>

lemmas model_defs = New_def empty_heap_def root_def heap0_def set_IndentSize_def andThen_def
  deref_def builder_at_def buffer_at_def writef_def indent_def unindent_def String_def
  AddNewLine_def AddComment_def AddString_def AddInt_def AddFloat_def AddBool_def
  addArray_def AddStringArray_def AddIntArray_def AddFloatArray_def AddBoolArray_def
  AddTable_def AddArrayOfTables_def call_def alloc_builder_def populate_g_def nested_def assign_parent_def
  panicking_def formatInt_def FormatBool_def digit_def digits10.simps Let_def

lemmas float_defs = formatFloat_def int64_roundtrip_def Sprint_float_def FormatFloat_f_def
  fmtE_def fmtF_def exponent_digits_def decimal_value_def digit_value_def digit_def Let_def

lemma andThen_Inr [simp]: "andThen (Inr x) k = k x"
  by (simp add: andThen_def)

lemma andThen_Inl [simp]: "andThen (Inl e) k = Inl e"
  by (simp add: andThen_def)

lemma builder_at_Some:
  "builder_at h p = Some b \<longleftrightarrow> p < length (builders h) \<and> builders h ! p = b"
  by (simp add: builder_at_def)

lemma buffer_at_Some:
  "buffer_at h p = Some bs \<longleftrightarrow> p < length (buffers h) \<and> buffers h ! p = bs"
  by (simp add: buffer_at_def)

lemma builder_at_buffers_update [simp]:
  "builder_at (h\<lparr>buffers := bf\<rparr>) p = builder_at h p"
  by (simp add: builder_at_def)

lemma buffer_at_write:
  "buffer_at h p = Some bs \<Longrightarrow> buffer_at (h\<lparr>buffers := (buffers h)[p := t]\<rparr>) p = Some t"
  by (simp add: buffer_at_def split: if_splits)

lemma builder_at_write:
  "builder_at h p = Some b \<Longrightarrow> builder_at (h\<lparr>builders := (builders h)[p := c]\<rparr>) p = Some c"
  by (simp add: builder_at_def split: if_splits)

lemma deref_valid: "builder_at h w = Some b \<Longrightarrow> deref w h = Inr b"
  by (simp add: deref_def)

lemma writef_valid:
  assumes "builder_at h w = Some b" and "buffer_at h (buf b) = Some bs"
  shows "writef w s h = Inr (h\<lparr>buffers := (buffers h)[buf b := bs @ indentation b @ s]\<rparr>)"
  using assms by (simp add: writef_def deref_def)

lemma writef_invalid:
  "builder_at h w = Some b \<Longrightarrow> buffer_at h (buf b) = None \<Longrightarrow>
   writef w s h = Inl NilDereference"
  by (simp add: writef_def deref_def)

lemma String_valid:
  "builder_at h w = Some b \<Longrightarrow> buffer_at h (buf b) = Some bs \<Longrightarrow> String w h = Inr bs"
  by (simp add: String_def deref_def)

lemma heap0_root: "builder_at heap0 root = Some \<lparr>IndentSize = 2, indentation = [], buf = 0\<rparr>"
  by (simp add: heap0_def root_def New_def empty_heap_def builder_at_def)

lemma heap0_buffer: "buffer_at heap0 0 = Some []"
  by (simp add: heap0_def New_def empty_heap_def buffer_at_def)

text \<open>The loop of \<open>addArray\<close> appends one line for each element, in the order of the list.\<close>

lemma write_elements_valid:
  assumes "builder_at h w = Some b" and "buffer_at h (buf b) = Some bs"
  shows "write_elements w vs h =
           Inr (h\<lparr>buffers := (buffers h)
                  [buf b := bs @ concat (map (\<lambda>v. indentation b @ v @ '',\<newline>'') vs)]\<rparr>)"
  using assms
proof (induction vs arbitrary: h bs)
  case Nil
  from Nil.prems(2) have "bs = buffers h ! buf b"
    by (simp add: buffer_at_def split: if_splits)
  then show ?case by simp
next
  case (Cons v vs)
  let ?h1 = "h\<lparr>buffers := (buffers h)[buf b := bs @ indentation b @ v @ '',\<newline>'']\<rparr>"
  have w1: "writef w (v @ '',\<newline>'') h = Inr ?h1"
    using Cons.prems by (rule writef_valid)
  have b1: "builder_at ?h1 w = Some b"
    using Cons.prems(1) by simp
  have f1: "buffer_at ?h1 (buf b) = Some (bs @ indentation b @ v @ '',\<newline>'')"
    using Cons.prems(2) by (rule buffer_at_write)
  show ?case
    using Cons.IH [OF b1 f1] w1 by simp
qed

lemma indent_valid:
  "builder_at h w = Some b \<Longrightarrow>
   indent w h =
     Inr (h\<lparr>builders := (builders h)[w := b\<lparr>indentation := indentation b @ ''  ''\<rparr>]\<rparr>)"
  by (simp add: indent_def deref_def)

lemma unindent_valid:
  assumes "builder_at h w = Some b" and "0 \<le> IndentSize b"
  shows "unindent w h =
           Inr (h\<lparr>builders := (builders h)
                  [w := b\<lparr>indentation := unindented (IndentSize b) (indentation b)\<rparr>]\<rparr>)"
proof (cases "indentation b = []")
  case True
  have "b\<lparr>indentation := []\<rparr> = b" using True by simp
  moreover have "b = builders h ! w"
    using assms(1) by (simp add: builder_at_def split: if_splits)
  ultimately have "(builders h)[w := b\<lparr>indentation := []\<rparr>] = builders h"
    by simp
  then show ?thesis
    using assms(1) True by (simp add: unindent_def deref_def unindented_def)
next
  case False
  then show ?thesis
    using assms by (simp add: unindent_def deref_def unindented_def Let_def)
qed

text \<open>With the default \<open>IndentSize\<close> of 2, \<open>unindent\<close> takes away what \<open>indent\<close> added.\<close>

lemma unindented_default: "unindented 2 (s @ ''  '') = s"
  by (simp add: unindented_def)

lemma addArray_valid:
  assumes b: "builder_at h w = Some b" and f: "buffer_at h (buf b) = Some bs"
    and n: "0 \<le> IndentSize b"
  shows "addArray w key vals h =
           Inr (h\<lparr>builders := (builders h)
                    [w := b\<lparr>indentation := unindented (IndentSize b) (indentation b @ ''  '')\<rparr>],
                  buffers := (buffers h)
                    [buf b := bs @ array_text (indentation b)
                                     (unindented (IndentSize b) (indentation b @ ''  '')) key vals]\<rparr>)"
proof -
  let ?ind = "indentation b"
  let ?b2 = "b\<lparr>indentation := ?ind @ ''  ''\<rparr>"
  let ?cl = "unindented (IndentSize b) (?ind @ ''  '')"
  let ?t1 = "bs @ ?ind @ key @ '' = [\<newline>''"
  let ?t3 = "?t1 @ concat (map (\<lambda>v. (?ind @ ''  '') @ v @ '',\<newline>'') vals)"
  let ?h1 = "h\<lparr>buffers := (buffers h)[buf b := ?t1]\<rparr>"
  let ?h2 = "?h1\<lparr>builders := (builders ?h1)[w := ?b2]\<rparr>"
  let ?h3 = "?h2\<lparr>buffers := (buffers ?h2)[buf ?b2 := ?t3]\<rparr>"
  let ?h4 = "?h3\<lparr>builders := (builders ?h3)[w := ?b2\<lparr>indentation := ?cl\<rparr>]\<rparr>"
  let ?b4 = "?b2\<lparr>indentation := ?cl\<rparr>"
  let ?h5 = "?h4\<lparr>buffers := (buffers ?h4)[buf ?b4 := ?t3 @ indentation ?b4 @ '']\<newline>'']\<rparr>"
  have s1: "writef w (key @ '' = [\<newline>'') h = Inr ?h1"
    using writef_valid [OF b f] by simp
  have b1: "builder_at ?h1 w = Some b" using b by (simp add: builder_at_Some)
  have s2: "indent w ?h1 = Inr ?h2"
    using b1 by (rule indent_valid)
  have b2: "builder_at ?h2 w = Some ?b2"
    using b1 by (rule builder_at_write)
  have f2: "buffer_at ?h2 (buf ?b2) = Some ?t1"
    using f by (simp add: buffer_at_Some)
  have s3: "write_elements w vals ?h2 = Inr ?h3"
    using write_elements_valid [OF b2 f2] by simp
  have b3: "builder_at ?h3 w = Some ?b2" using b2 by (simp add: builder_at_Some)
  have s4: "unindent w ?h3 = Inr ?h4"
    using unindent_valid [OF b3] n by simp
  have b4: "builder_at ?h4 w = Some ?b4"
    using b3 by (rule builder_at_write)
  have f4: "buffer_at ?h4 (buf ?b4) = Some ?t3"
    using f2 by (simp add: buffer_at_Some)
  have s5: "writef w '']\<newline>'' ?h4 = Inr ?h5"
    using writef_valid [OF b4 f4] by simp
  have "addArray w key vals h = Inr ?h5"
    by (simp only: addArray_def s1 s2 s3 s4 s5 andThen_Inr)
  also have "?h5 = h\<lparr>builders := (builders h)[w := b\<lparr>indentation := ?cl\<rparr>],
                     buffers := (buffers h)[buf b := bs @ array_text ?ind ?cl key vals]\<rparr>"
    by (simp add: array_text_def)
  finally show ?thesis .
qed

lemma String_after_addArray:
  assumes b: "builder_at h w = Some b" and f: "buffer_at h (buf b) = Some bs"
    and n: "0 \<le> IndentSize b"
  shows "andThen (addArray w key vals h) (String w) =
           Inr (bs @ array_text (indentation b)
                       (unindented (IndentSize b) (indentation b @ ''  '')) key vals)"
proof -
  let ?cl = "unindented (IndentSize b) (indentation b @ ''  '')"
  let ?c = "b\<lparr>indentation := ?cl\<rparr>"
  let ?t = "bs @ array_text (indentation b) ?cl key vals"
  let ?h' = "h\<lparr>builders := (builders h)[w := ?c], buffers := (buffers h)[buf b := ?t]\<rparr>"
  have r: "addArray w key vals h = Inr ?h'"
    using b f n by (rule addArray_valid)
  have b': "builder_at ?h' w = Some ?c"
    using b by (simp add: builder_at_Some)
  have f': "buffer_at ?h' (buf ?c) = Some ?t"
    using f by (simp add: buffer_at_Some)
  have "String w ?h' = Inr ?t"
    using b' f' by (rule String_valid)
  with r show ?thesis by simp
qed

text \<open>
  The two table emitters share their body: the header is written, the child is allocated and
  the callback is called on it.
\<close>

lemma table_valid:
  assumes b: "builder_at h w = Some b" and f: "buffer_at h (buf b) = Some bs"
  shows "andThen (writef w header h) (\<lambda>h1.
           andThen (deref w h1) (\<lambda>b.
             case alloc_builder
                    \<lparr>IndentSize = IndentSize b, indentation = indentation b, buf = buf b\<rparr> h1 of
               (c, h2) \<Rightarrow> call (Some g) c h2))
         = g (length (builders h)) (table_entry b bs header h)"
proof -
  let ?h1 = "h\<lparr>buffers := (buffers h)[buf b := bs @ indentation b @ header]\<rparr>"
  have s1: "writef w header h = Inr ?h1"
    using b f by (rule writef_valid)
  have b1: "builder_at ?h1 w = Some b"
    using b by simp
  have s2: "deref w ?h1 = Inr b"
    using b1 by (rule deref_valid)
  show ?thesis
    by (simp add: s1 s2 alloc_builder_def call_def table_entry_def)
qed

text \<open>With \<open>IndentSize\<close> left at 2 an array leaves the builder as it found it.\<close>

lemma addArray_default_restores_builder:
  assumes "builder_at h w = Some b" and "buffer_at h (buf b) = Some bs"
    and "IndentSize b = 2"
  shows "\<exists>h'. addArray w key vals h = Inr h' \<and> builder_at h' w = Some b"
proof -
  have "0 \<le> IndentSize b" using assms(3) by simp
  from addArray_valid [OF assms(1,2) this, of key vals] assms(1,3)
  show ?thesis by (simp add: unindented_default builder_at_Some)
qed

text \<open>Which operations leave the struct of a builder \<open>w\<close> as it is.\<close>

lemma writef_keeps: "writef c s h1 = Inr h2 \<Longrightarrow> builder_at h2 w = builder_at h1 w"
  by (auto simp: writef_def deref_def andThen_def split: option.splits)

lemma set_IndentSize_keeps:
  "c \<noteq> w \<Longrightarrow> set_IndentSize c n h1 = Inr h2 \<Longrightarrow> builder_at h2 w = builder_at h1 w"
  by (auto simp: set_IndentSize_def deref_def andThen_def builder_at_def split: option.splits if_splits)

lemma indent_keeps:
  "c \<noteq> w \<Longrightarrow> indent c h1 = Inr h2 \<Longrightarrow> builder_at h2 w = builder_at h1 w"
  by (auto simp: indent_def deref_def andThen_def builder_at_def split: option.splits if_splits)

lemma andThen_InrE:
  assumes "andThen r k = Inr y"
  obtains x where "r = Inr x" and "k x = Inr y"
  using assms by (cases r) (simp_all add: andThen_def)

text \<open>
  The body of a table emitter, on any receiver \<open>x\<close>, keeps a builder \<open>w\<close> that is
  allocated, when the callback keeps it.
\<close>

lemma table_keeps:
  assumes al: "w < length (builders h)"
    and frame: "\<And>c h1 h2. c \<noteq> w \<Longrightarrow> w < length (builders h1) \<Longrightarrow> g c h1 = Inr h2 \<Longrightarrow>
                  builder_at h2 w = builder_at h1 w"
    and r: "andThen (writef x header h) (\<lambda>h1.
             andThen (deref x h1) (\<lambda>b.
               case alloc_builder
                      \<lparr>IndentSize = IndentSize b, indentation = indentation b, buf = buf b\<rparr> h1 of
                 (c, h2) \<Rightarrow> call (Some g) c h2)) = Inr h'"
  shows "builder_at h' w = builder_at h w"
proof -
  from r obtain h1 where w1: "writef x header h = Inr h1"
    and r1: "andThen (deref x h1) (\<lambda>b.
               case alloc_builder
                      \<lparr>IndentSize = IndentSize b, indentation = indentation b, buf = buf b\<rparr> h1 of
                 (c, h2) \<Rightarrow> call (Some g) c h2) = Inr h'"
    by (rule andThen_InrE)
  from r1 obtain b where d1: "deref x h1 = Inr b" and
    r2': "(case alloc_builder
                  \<lparr>IndentSize = IndentSize b, indentation = indentation b, buf = buf b\<rparr> h1 of
             (c, h2) \<Rightarrow> call (Some g) c h2) = Inr h'"
    by (rule andThen_InrE)
  from r2' have r2: "g (length (builders h1))
           (h1\<lparr>builders := builders h1 @
              [\<lparr>IndentSize = IndentSize b, indentation = indentation b, buf = buf b\<rparr>]\<rparr>) = Inr h'"
    by (simp add: alloc_builder_def call_def)
  let ?h2 = "h1\<lparr>builders := builders h1 @
              [\<lparr>IndentSize = IndentSize b, indentation = indentation b, buf = buf b\<rparr>]\<rparr>"
  have k1: "builder_at h1 w = builder_at h w"
    using w1 by (rule writef_keeps)
  with al have al1: "w < length (builders h1)"
    by (simp add: builder_at_def split: if_splits)
  then have k2: "builder_at ?h2 w = builder_at h1 w"
    by (simp add: builder_at_def nth_append)
  have c: "length (builders h1) \<noteq> w" and al2: "w < length (builders ?h2)"
    using al1 by simp_all
  from frame [OF c al2 r2] k2 k1 show ?thesis by simp
qed

lemma populate_g_keeps:
  assumes "populate_g c h1 = Inr h2"
  shows "builder_at h2 w = builder_at h1 w"
proof -
  from assms obtain ha where s1: "AddString c ''c'' ''y'' h1 = Inr ha"
    and s2: "AddInt c ''n'' 3 ha = Inr h2"
    unfolding populate_g_def by (auto elim!: andThen_InrE)
  have "builder_at ha w = builder_at h1 w"
    using s1 unfolding AddString_def by (rule writef_keeps)
  moreover have "builder_at h2 w = builder_at ha w"
    using s2 unfolding AddInt_def by (rule writef_keeps)
  ultimately show ?thesis by simp
qed

lemma nested_keeps:
  assumes c: "c \<noteq> w" and al: "w < length (builders h1)" and r: "nested c h1 = Inr h2"
  shows "builder_at h2 w = builder_at h1 w"
proof -
  from r obtain ha hb where s1: "set_IndentSize c 7 h1 = Inr ha"
    and s2: "indent c ha = Inr hb"
    and s3: "AddTable c ''x'' (Some populate_g) hb = Inr h2"
    unfolding nested_def by (auto elim!: andThen_InrE)
  have k1: "builder_at ha w = builder_at h1 w"
    using c s1 by (rule set_IndentSize_keeps)
  have k2: "builder_at hb w = builder_at ha w"
    using c s2 by (rule indent_keeps)
  from al k1 k2 have alb: "w < length (builders hb)"
    by (simp add: builder_at_def split: if_splits)
  have k3: "builder_at h2 w = builder_at hb w"
    using alb populate_g_keeps s3 [unfolded AddTable_def] by (rule table_keeps)
  from k1 k2 k3 show ?thesis by simp
qed

text \<open>
  The float formatting on the values of the repository's own examples: 23.45, 8, 0, 0.004
  and, from the README, 50.
\<close>

lemma formatFloat_examples:
  "formatFloat sat (Finite False ''2345'' 2) = ''23.45''"
  "formatFloat sat (Finite False ''8'' 1) = ''8.0''"
  "formatFloat sat (Finite False [] 0) = ''0.0''"
  "formatFloat sat (Finite False ''4'' (- 2)) = ''0.004''"
  "formatFloat sat (Finite False ''5'' 2) = ''50.0''"
  by (simp_all add: float_defs upt_conv_Cons)

text \<open>Integers and booleans on examples, a negative number among them.\<close>

lemma formatInt_examples:
  "formatInt 0 = ''0''"
  "formatInt 23 = ''23''"
  "formatInt (- 1234) = ''-1234''"
  "FormatBool True = ''true''"
  "FormatBool False = ''false''"
  by (simp_all add: formatInt_def FormatBool_def digits10.simps digit_def)

text \<open>
  The fraction digits that \<open>fmtF\<close> writes for a number with digits behind the point, and
  what the reader makes of a numeral.
\<close>

lemma fraction_digits:
  assumes "dp < int (length d)"
  shows "map (\<lambda>i. let j = dp + int i in
                   if 0 \<le> j \<and> j < int (length d) then d ! nat j else CHR ''0'')
             [0..<nat (int (length d) - dp)]
         = replicate (nat (- dp)) CHR ''0'' @ drop (nat dp) d"
proof (rule nth_equalityI)
  show "length (map (\<lambda>i. let j = dp + int i in
                   if 0 \<le> j \<and> j < int (length d) then d ! nat j else CHR ''0'')
             [0..<nat (int (length d) - dp)])
        = length (replicate (nat (- dp)) CHR ''0'' @ drop (nat dp) d)"
    using assms by auto
next
  fix i
  assume "i < length (map (\<lambda>i. let j = dp + int i in
                   if 0 \<le> j \<and> j < int (length d) then d ! nat j else CHR ''0'')
             [0..<nat (int (length d) - dp)])"
  then have i: "int i < int (length d) - dp" by simp
  show "map (\<lambda>i. let j = dp + int i in
                   if 0 \<le> j \<and> j < int (length d) then d ! nat j else CHR ''0'')
             [0..<nat (int (length d) - dp)] ! i
        = (replicate (nat (- dp)) CHR ''0'' @ drop (nat dp) d) ! i"
  proof (cases "0 \<le> dp")
    case True
    then have "nat (dp + int i) = nat dp + i" by simp
    with True i show ?thesis by (simp add: Let_def)
  next
    case False
    then obtain m where m: "dp = - int m"
      using that [of "nat (- dp)"] by simp
    show ?thesis
    proof (cases "i < m")
      case True
      then show ?thesis by (simp add: m Let_def nth_append)
    next
      case False
      then have "nat (int i - int m) = i - m" "int m \<le> int i" by simp_all
      with False i show ?thesis by (simp add: m Let_def nth_append)
    qed
  qed
qed

lemma is_digit_not_point: "is_digit c \<Longrightarrow> c \<noteq> CHR ''.'' \<and> c \<noteq> CHR ''-'' \<and> c \<noteq> CHR ''e''"
  by (auto simp: is_digit_def)

lemma digits_before_point:
  assumes "list_all is_digit ip"
  shows "takeWhile (\<lambda>c. c \<noteq> CHR ''.'') (ip @ CHR ''.'' # fp) = ip"
    and "dropWhile (\<lambda>c. c \<noteq> CHR ''.'') (ip @ CHR ''.'' # fp) = CHR ''.'' # fp"
proof -
  have a: "\<And>c. c \<in> set ip \<Longrightarrow> c \<noteq> CHR ''.''"
    using assms is_digit_not_point by (auto simp: list_all_iff)
  show "takeWhile (\<lambda>c. c \<noteq> CHR ''.'') (ip @ CHR ''.'' # fp) = ip"
    using a by simp
  show "dropWhile (\<lambda>c. c \<noteq> CHR ''.'') (ip @ CHR ''.'' # fp) = CHR ''.'' # fp"
    using a by simp
qed

lemma no_leading_zero:
  "d \<noteq> [] \<Longrightarrow> hd d \<noteq> CHR ''0'' \<Longrightarrow> takeWhile (\<lambda>c. c = CHR ''0'') d = []"
  by (cases d) auto

lemma no_trailing_zero:
  "d \<noteq> [] \<Longrightarrow> last d \<noteq> CHR ''0'' \<Longrightarrow> rev (dropWhile (\<lambda>c. c = CHR ''0'') (rev d)) = d"
  by (induction d rule: rev_induct) auto

lemma leading_zeros:
  assumes "d \<noteq> []" and "hd d \<noteq> CHR ''0''"
  shows "takeWhile (\<lambda>c. c = CHR ''0'') (replicate m CHR ''0'' @ d) = replicate m CHR ''0''"
  using assms by (induction m) (simp_all add: no_leading_zero)



lemma parse_decimal_parts:
  assumes ip: "list_all is_digit ip" and fp: "list_all is_digit fp" and ne: "ip \<noteq> []"
  shows "parse_decimal ((if neg then ''-'' else []) @ ip @ ''.'' @ fp) =
           Some (decimal_of neg (ip @ fp) (length ip))"
proof -
  let ?body = "ip @ CHR ''.'' # fp"
  have h: "hd ?body \<noteq> CHR ''-''"
    using ip ne is_digit_not_point by (cases ip) auto
  have t: "takeWhile (\<lambda>c. c \<noteq> CHR ''.'') ?body = ip"
    and d: "dropWhile (\<lambda>c. c \<noteq> CHR ''.'') ?body = CHR ''.'' # fp"
    using digits_before_point [OF ip] by simp_all
  have all: "list_all is_digit (ip @ fp)"
    using ip fp by simp
  show ?thesis
  proof (cases neg)
    case True
    then show ?thesis
      using all ne by (simp add: parse_decimal_def t d)
  next
    case False
    have "?body \<noteq> []" by simp
    with False h show ?thesis
      using all ne by (simp add: parse_decimal_def t d)
  qed
qed

lemma decimal_of_shortest:
  assumes "shortest_digits d"
  shows "decimal_of neg (replicate m CHR ''0'' @ d) n = Finite neg d (int n - int m)"
proof -
  from assms have ne: "d \<noteq> []" and h: "hd d \<noteq> CHR ''0''" and l: "last d \<noteq> CHR ''0''"
    by (simp_all add: shortest_digits_def)
  have lz: "takeWhile (\<lambda>c. c = CHR ''0'') (replicate m CHR ''0'' @ d) = replicate m CHR ''0''"
    using ne h by (rule leading_zeros)
  have tz: "rev (dropWhile (\<lambda>c. c = CHR ''0'') (rev d)) = d"
    using ne l by (rule no_trailing_zero)
  have ex: "\<exists>x\<in>set d. x \<noteq> CHR ''0''"
    using ne h hd_in_set by blast
  show ?thesis
    unfolding decimal_of_def lz using tz ne ex by (simp add: Let_def)
qed


text \<open>
  The text that each array emitter appends, for every list: the opening line at the current
  prefix, the element lines in the order of the list two spaces deeper, the closing line at
  the prefix that \<open>unindent\<close> leaves. Below it, the arrays of the repository's examples.
\<close>

lemma array_emitters_text:
  assumes "builder_at h w = Some b" and "buffer_at h (buf b) = Some bs"
    and "0 \<le> IndentSize b"
  shows "andThen (AddStringArray w key ss h) (String w) =
           Inr (bs @ array_text (indentation b)
              (unindented (IndentSize b) (indentation b @ ''  '')) key
              (map (\<lambda>v. ''\"'' @ v @ ''\"'') ss)) \<and>
         andThen (AddIntArray w key ns h) (String w) =
           Inr (bs @ array_text (indentation b)
              (unindented (IndentSize b) (indentation b @ ''  '')) key (map formatInt ns)) \<and>
         andThen (AddFloatArray sat w key xs h) (String w) =
           Inr (bs @ array_text (indentation b)
              (unindented (IndentSize b) (indentation b @ ''  '')) key
              (map (formatFloat sat) xs)) \<and>
         andThen (AddBoolArray w key ts h) (String w) =
           Inr (bs @ array_text (indentation b)
              (unindented (IndentSize b) (indentation b @ ''  '')) key (map FormatBool ts))"
  unfolding AddStringArray_def AddIntArray_def AddFloatArray_def AddBoolArray_def
  using assms by (intro conjI String_after_addArray)

lemma array_examples:
  "andThen (AddIntArray root ''a'' [1, 2, 3] heap0) (String root) =
     Inr ''a = [\<newline>  1,\<newline>  2,\<newline>  3,\<newline>]\<newline>'' \<and>
   andThen (AddIntArray root ''a'' [] heap0) (String root) = Inr ''a = [\<newline>]\<newline>'' \<and>
   andThen (AddStringArray root ''s'' [''b'', ''a'', ''b''] heap0) (String root) =
     Inr ''s = [\<newline>  \"b\",\<newline>  \"a\",\<newline>  \"b\",\<newline>]\<newline>''"
proof -
  let ?b = "\<lparr>IndentSize = 2, indentation = [], buf = 0\<rparr>"
  have f: "buffer_at heap0 (buf ?b) = Some []"
    using heap0_buffer by simp
  have n: "0 \<le> IndentSize ?b" by simp
  note t = array_emitters_text [OF heap0_root f n]
  from t [where key = "''a''" and ns = "[1, 2, 3]"] t [where key = "''a''" and ns = "[]"]
    t [where key = "''s''" and ss = "[''b'', ''a'', ''b'']"]
  show ?thesis
    by (simp add: array_text_def unindented_def formatInt_def digits10.simps digit_def)
qed

section \<open>The claims\<close>

subsection \<open>C1: the shopping-list example\<close>

text \<open>
  C1. On a fresh builder, \<open>AddString("title","x")\<close>, \<open>AddFloat("budget",50)\<close> and
  \<open>AddTable("g", ...)\<close> with a callback that adds the string \<open>c = "y"\<close> and the integer
  \<open>n = 3\<close> are claimed to render with a blank line in front of \<open>[g]\<close>. The code writes the
  header of a table straight after the previous line: \<open>String()\<close> returns the text without
  the blank line, and so not the claimed text.
\<close>

theorem shopping_list_has_no_blank_line:
  "andThen (run [AddString root ''title'' ''x'',
                 AddFloat sat root ''budget'' (Finite False ''5'' 2),
                 AddTable root ''g'' (Some populate_g)] heap0) (String root)
     = Inr ''title = \"x\"\<newline>budget = 50.0\<newline>[g]\<newline>c = \"y\"\<newline>n = 3\<newline>'' \<and>
   andThen (run [AddString root ''title'' ''x'',
                 AddFloat sat root ''budget'' (Finite False ''5'' 2),
                 AddTable root ''g'' (Some populate_g)] heap0) (String root)
     \<noteq> Inr ''title = \"x\"\<newline>budget = 50.0\<newline>\<newline>[g]\<newline>c = \"y\"\<newline>n = 3\<newline>''"
  by (simp add: model_defs formatFloat_examples)

subsection \<open>C2: indentation around an array\<close>

text \<open>
  C2. An array emitter is claimed to write its elements one indent unit deeper and to leave
  the prefix as it found it, for every value of \<open>IndentSize\<close>. \<open>indent\<close> always adds two
  spaces, while \<open>unindent\<close> removes \<open>IndentSize\<close> characters. On a fresh builder with
  \<open>IndentSize\<close> set to 1 the element is written two spaces deep, the closing bracket one
  space deep, and the prefix that is left is one space instead of the empty prefix.
\<close>

theorem array_indent_ignores_IndentSize:
  "run [set_IndentSize root 1, AddIntArray root ''a'' [1]] heap0 =
     Inr \<lparr>builders = [\<lparr>IndentSize = 1, indentation = '' '', buf = 0\<rparr>],
          buffers = [''a = [\<newline>  1,\<newline> ]\<newline>'']\<rparr>"
  by (simp add: model_defs)

subsection \<open>C3: which operations complete\<close>

text \<open>
  C3, as stated: every public operation completes, for every value of \<open>IndentSize\<close> and all
  arguments. It does not: a table emitter called with the \<open>nil\<close> function panics when it
  calls it, and an array emitter on a builder whose \<open>IndentSize\<close> is \<open>-1\<close> panics in the
  slice expression of \<open>unindent\<close>.
\<close>

theorem operations_can_panic:
  "AddTable root ''t'' None heap0 = Inl NilDereference \<and>
   run [set_IndentSize root (- 1), AddIntArray root ''a'' []] heap0 = Inl SliceBoundsOutOfRange"
  by (simp add: model_defs)

text \<open>
  C3, amended. On a builder with an allocated buffer, whatever its \<open>IndentSize\<close>, every
  scalar emitter, the assignment of \<open>IndentSize\<close> and \<open>String\<close> complete, for all
  arguments, and a table emitter called with a function panics exactly when that function
  panics on the child builder; every array emitter completes, for all arguments, when
  \<open>IndentSize\<close> is not negative.
\<close>

theorem emitters_complete:
  assumes b: "builder_at h w = Some b" and f: "buffer_at h (buf b) = Some bs"
  shows "(\<exists>h'. AddNewLine w h = Inr h') \<and>
         (\<exists>h'. AddComment w msg h = Inr h') \<and>
         (\<exists>h'. AddString w key s h = Inr h') \<and>
         (\<exists>h'. AddInt w key i h = Inr h') \<and>
         (\<exists>h'. AddFloat sat w key x h = Inr h') \<and>
         (\<exists>h'. AddBool w key t h = Inr h') \<and>
         (\<exists>h'. set_IndentSize w m h = Inr h') \<and>
         String w h = Inr bs \<and>
         isl (AddTable w name (Some g) h) =
           isl (g (length (builders h)) (table_entry b bs (''['' @ name @ '']\<newline>'') h)) \<and>
         isl (AddArrayOfTables w name (Some g) h) =
           isl (g (length (builders h)) (table_entry b bs (''[['' @ name @ '']]\<newline>'') h)) \<and>
         (0 \<le> IndentSize b \<longrightarrow>
            (\<exists>h'. AddStringArray w key ss h = Inr h') \<and>
            (\<exists>h'. AddIntArray w key ns h = Inr h') \<and>
            (\<exists>h'. AddFloatArray sat w key xs h = Inr h') \<and>
            (\<exists>h'. AddBoolArray w key ts h = Inr h'))"
proof -
  have wr: "\<exists>h'. writef w t h = Inr h'" for t
    using writef_valid [OF b f] by simp
  have ar: "\<exists>h'. addArray w key vals h = Inr h'" if "0 \<le> IndentSize b" for vals
    using addArray_valid [OF b f that] by simp
  have st: "String w h = Inr bs"
    using b f by (rule String_valid)
  have si: "\<exists>h'. set_IndentSize w m h = Inr h'"
    using b by (simp add: set_IndentSize_def deref_def)
  have ta: "AddTable w name (Some g) h =
              g (length (builders h)) (table_entry b bs (''['' @ name @ '']\<newline>'') h)"
    unfolding AddTable_def using b f by (rule table_valid)
  have at: "AddArrayOfTables w name (Some g) h =
              g (length (builders h)) (table_entry b bs (''[['' @ name @ '']]\<newline>'') h)"
    unfolding AddArrayOfTables_def using b f by (rule table_valid)
  show ?thesis
    unfolding AddNewLine_def AddComment_def AddString_def AddInt_def AddFloat_def AddBool_def
      AddStringArray_def AddIntArray_def AddFloatArray_def AddBoolArray_def
    using wr ar st si ta at by simp
qed

theorem emitters_complete_witness:
  "(\<exists>h'. AddFloat False 0 ''a'' NaN
           \<lparr>builders = [\<lparr>IndentSize = - 1, indentation = ''  '', buf = 0\<rparr>],
              buffers = [''x'']\<rparr> = Inr h') \<and>
   String 0 \<lparr>builders = [\<lparr>IndentSize = - 1, indentation = ''  '', buf = 0\<rparr>],
              buffers = [''x'']\<rparr> = Inr ''x'' \<and>
   isl (AddTable 0 ''t'' (Some panicking)
           \<lparr>builders = [\<lparr>IndentSize = - 1, indentation = ''  '', buf = 0\<rparr>],
              buffers = [''x'']\<rparr>) \<and>
   (\<exists>h'. AddIntArray 0 ''a'' [1, 2]
           \<lparr>builders = [\<lparr>IndentSize = 0, indentation = ''  '', buf = 0\<rparr>],
              buffers = [''x'']\<rparr> = Inr h')"
proof -
  let ?m = "\<lparr>IndentSize = - 1, indentation = ''  '', buf = 0\<rparr>"
  let ?hm = "\<lparr>builders = [?m], buffers = [''x'']\<rparr>"
  let ?b = "\<lparr>IndentSize = 0, indentation = ''  '', buf = 0\<rparr>"
  let ?h = "\<lparr>builders = [?b], buffers = [''x'']\<rparr>"
  have 1: "builder_at ?hm 0 = Some ?m" by (simp add: builder_at_def)
  have 2: "buffer_at ?hm (buf ?m) = Some ''x''" by (simp add: buffer_at_def)
  have 3: "builder_at ?h 0 = Some ?b" by (simp add: builder_at_def)
  have 4: "buffer_at ?h (buf ?b) = Some ''x''" by (simp add: buffer_at_def)
  from emitters_complete [where sat = False and key = "''a''" and x = NaN
      and name = "''t''" and g = panicking, OF 1 2]
    emitters_complete [where key = "''a''" and ns = "[1, 2]", OF 3 4]
  show ?thesis by (simp add: panicking_def)
qed

subsection \<open>C4: integral floats\<close>

text \<open>
  C4. An integral \<open>float64\<close> is claimed to print as its decimal digits followed by \<open>.0\<close>,
  without scientific notation. \<open>formatFloat\<close> appends \<open>.0\<close> to what \<open>%v\<close> prints, and
  \<open>%v\<close> switches to the exponent form from one million on: one million prints as
  \<open>1e+06.0\<close>.
\<close>

theorem formatFloat_million_is_scientific:
  "formatFloat sat (Finite False ''1'' 7) = ''1e+06.0''"
  by (simp add: float_defs)

subsection \<open>C5: floats that are not integral\<close>

text \<open>
  C5. A finite \<open>float64\<close> that is not integral has shortest digits \<open>d\<close> that reach behind
  the decimal point: \<open>dp < length d\<close>. For every such value \<open>formatFloat\<close> gives a plain
  decimal numeral: the sign, the digits in front of the point (a single zero when there
  are none), the point, and behind it the zeros that the place value needs followed by the
  rest of the shortest digits. It has no exponent and no digit beyond the shortest ones, so
  it does not end in a zero, and read back as a decimal numeral it is the value it was
  made from.
\<close>

theorem formatFloat_nonintegral:
  assumes sd: "shortest_digits d" and frac: "dp < int (length d)"
  shows "formatFloat sat (Finite neg d dp) =
           (if neg then ''-'' else []) @ (if 0 < dp then take (nat dp) d else ''0'') @ ''.'' @
           replicate (nat (- dp)) CHR ''0'' @ drop (nat dp) d \<and>
         CHR ''e'' \<notin> set (formatFloat sat (Finite neg d dp)) \<and>
         last (formatFloat sat (Finite neg d dp)) \<noteq> CHR ''0'' \<and>
         parse_decimal (formatFloat sat (Finite neg d dp)) = Some (Finite neg d dp)"
proof -
  let ?ip = "if 0 < dp then take (nat dp) d else ''0''"
  let ?fp = "replicate (nat (- dp)) CHR ''0'' @ drop (nat dp) d"
  let ?out = "(if neg then ''-'' else []) @ ?ip @ ''.'' @ ?fp"
  from sd have ne: "d \<noteq> []" and dig: "list_all is_digit d"
    and l: "last d \<noteq> CHR ''0''"
    by (simp_all add: shortest_digits_def)
  have shape: "formatFloat sat (Finite neg d dp) = ?out"
    using frac fraction_digits [OF frac]
    by (simp add: formatFloat_def int64_roundtrip_def FormatFloat_f_def fmtF_def max_def)
  have z: "is_digit CHR ''0''" by (simp add: is_digit_def)
  have ipd: "list_all is_digit ?ip"
    using dig z by (auto simp: list_all_iff dest: in_set_takeD)
  have fpd: "list_all is_digit ?fp"
    using dig z by (auto simp: list_all_iff dest: in_set_dropD)
  have ipn: "?ip \<noteq> []"
    using ne by auto
  have "nat dp < length d"
    using frac ne by (cases "0 \<le> dp") simp_all
  then have drop_ne: "drop (nat dp) d \<noteq> []"
    by simp
  have e: "CHR ''e'' \<notin> set xs" if "list_all is_digit xs" for xs
    using that is_digit_not_point by (auto simp: list_all_iff)
  have noe: "CHR ''e'' \<notin> set ?out"
    using e [OF ipd] e [OF fpd] by simp
  have lst: "last ?out \<noteq> CHR ''0''"
    using drop_ne l by simp
  have readback: "parse_decimal ?out = Some (Finite neg d dp)"
  proof (cases "0 < dp")
    case True
    then have ds: "?ip @ ?fp = replicate 0 CHR ''0'' @ d" by simp
    have len: "int (length ?ip) - int 0 = dp" using True frac by simp
    show ?thesis
      unfolding parse_decimal_parts [OF ipd fpd ipn] ds decimal_of_shortest [OF sd] len ..
  next
    case False
    then have ds: "?ip @ ?fp = replicate (Suc (nat (- dp))) CHR ''0'' @ d" by simp
    have len: "int (length ?ip) - int (Suc (nat (- dp))) = dp" using False by simp
    show ?thesis
      unfolding parse_decimal_parts [OF ipd fpd ipn] ds decimal_of_shortest [OF sd] len ..
  qed
  show ?thesis
    unfolding shape using noe lst readback by simp
qed

theorem formatFloat_nonintegral_witness:
  "formatFloat False (Finite False ''4'' (- 2)) = ''0.004'' \<and>
   parse_decimal ''0.004'' = Some (Finite False ''4'' (- 2)) \<and>
   formatFloat False (Finite False ''2345'' 2) = ''23.45'' \<and>
   parse_decimal ''23.45'' = Some (Finite False ''2345'' 2) \<and>
   formatFloat False (Finite True ''1'' (- 9)) = ''-0.0000000001'' \<and>
   parse_decimal ''-0.0000000001'' = Some (Finite True ''1'' (- 9))"
proof -
  have 1: "shortest_digits ''4''" and 2: "shortest_digits ''2345''"
    and 3: "shortest_digits ''1''"
    by (simp_all add: shortest_digits_def is_digit_def)
  have a: "- 2 < int (length ''4'')" and b: "2 < int (length ''2345'')"
    and c: "- 9 < int (length ''1'')" by simp_all
  note t1 = formatFloat_nonintegral [OF 1 a, of False False]
  note t2 = formatFloat_nonintegral [OF 2 b, of False False]
  note t3 = formatFloat_nonintegral [OF 3 c, of False True]
  have x1: "formatFloat False (Finite False ''4'' (- 2)) = ''0.004''"
    using t1 by (simp add: numeral_eq_Suc)
  have y1: "parse_decimal (formatFloat False (Finite False ''4'' (- 2))) =
              Some (Finite False ''4'' (- 2))"
    using t1 by blast
  have x2: "formatFloat False (Finite False ''2345'' 2) = ''23.45''"
    using t2 by (simp add: numeral_eq_Suc)
  have y2: "parse_decimal (formatFloat False (Finite False ''2345'' 2)) =
              Some (Finite False ''2345'' 2)"
    using t2 by blast
  have x3: "formatFloat False (Finite True ''1'' (- 9)) = ''-0.0000000001''"
    using t3 by (simp add: numeral_eq_Suc)
  have y3: "parse_decimal (formatFloat False (Finite True ''1'' (- 9))) =
              Some (Finite True ''1'' (- 9))"
    using t3 by blast
  from x1 y1 [unfolded x1] x2 y2 [unfolded x2] x3 y3 [unfolded x3]
  show ?thesis by (intro conjI)
qed

subsection \<open>C6: the text of an array\<close>

text \<open>
  C6. Each array emitter is claimed to write the opening line, one line for each element
  formatted by the rule of its scalar type, and the closing line. For a float that rule is
  the integer followed by \<open>.0\<close> when the value is integral. \<open>AddFloatArray\<close> formats its
  elements with \<open>formatFloat\<close>, as \<open>AddFloat\<close> does, and on a fresh builder the element
  line of one million is \<open>1e+06.0,\<close> and not \<open>1000000.0,\<close>.
\<close>

theorem float_array_element_is_scientific:
  "andThen (AddFloatArray sat root ''a'' [Finite False ''1'' 7] heap0) (String root)
     = Inr ''a = [\<newline>  1e+06.0,\<newline>]\<newline>'' \<and>
   andThen (AddFloatArray sat root ''a'' [Finite False ''1'' 7] heap0) (String root)
     \<noteq> Inr ''a = [\<newline>  1000000.0,\<newline>]\<newline>''"
proof -
  have m: "formatFloat sat (Finite False ''1'' 7) = ''1e+06.0''"
    by (simp add: float_defs)
  show ?thesis
    by (simp add: model_defs m)
qed

subsection \<open>C7: what a table emitter does\<close>

text \<open>
  C7. On a builder with an allocated buffer, \<open>AddTable\<close> called with a function \<open>g\<close> is one
  call of \<open>g\<close>: on the child pointer, in the heap where the header \<open>[name]\<close> and a newline
  have been appended at the current prefix and where the child, the builder allocated last,
  holds the buffer pointer, the prefix and the \<open>IndentSize\<close> of the caller. What \<open>g\<close>
  returns is what \<open>AddTable\<close> returns, so nothing is written after the callback.
  \<open>AddArrayOfTables\<close> does the same with the header \<open>[[name]]\<close>.
\<close>

theorem table_runs_callback_on_child:
  assumes "builder_at h w = Some b" and "buffer_at h (buf b) = Some bs"
  shows "AddTable w name (Some g) h =
           g (length (builders h)) (table_entry b bs (''['' @ name @ '']\<newline>'') h) \<and>
         AddArrayOfTables w name (Some g) h =
           g (length (builders h)) (table_entry b bs (''[['' @ name @ '']]\<newline>'') h) \<and>
         builder_at (table_entry b bs header h) (length (builders h)) =
           Some \<lparr>IndentSize = IndentSize b, indentation = indentation b, buf = buf b\<rparr> \<and>
         buffer_at (table_entry b bs header h) (buf b) = Some (bs @ indentation b @ header)"
proof (intro conjI)
  show "AddTable w name (Some g) h =
          g (length (builders h)) (table_entry b bs (''['' @ name @ '']\<newline>'') h)"
    unfolding AddTable_def using assms by (rule table_valid)
  show "AddArrayOfTables w name (Some g) h =
          g (length (builders h)) (table_entry b bs (''[['' @ name @ '']]\<newline>'') h)"
    unfolding AddArrayOfTables_def using assms by (rule table_valid)
  show "builder_at (table_entry b bs header h) (length (builders h)) =
          Some \<lparr>IndentSize = IndentSize b, indentation = indentation b, buf = buf b\<rparr>"
    by (simp add: table_entry_def builder_at_def)
  show "buffer_at (table_entry b bs header h) (buf b) = Some (bs @ indentation b @ header)"
    using assms(2) by (simp add: table_entry_def buffer_at_Some)
qed

theorem table_runs_callback_on_child_witness:
  "AddTable root ''g'' (Some populate_g) heap0 =
     Inr \<lparr>builders = [\<lparr>IndentSize = 2, indentation = [], buf = 0\<rparr>,
                      \<lparr>IndentSize = 2, indentation = [], buf = 0\<rparr>],
          buffers = [''[g]\<newline>c = \"y\"\<newline>n = 3\<newline>'']\<rparr> \<and>
   AddArrayOfTables root ''g'' (Some populate_g) heap0 =
     Inr \<lparr>builders = [\<lparr>IndentSize = 2, indentation = [], buf = 0\<rparr>,
                      \<lparr>IndentSize = 2, indentation = [], buf = 0\<rparr>],
          buffers = [''[[g]]\<newline>c = \"y\"\<newline>n = 3\<newline>'']\<rparr>"
proof -
  let ?b = "\<lparr>IndentSize = 2, indentation = [], buf = 0\<rparr>"
  have f: "buffer_at heap0 (buf ?b) = Some []"
    using heap0_buffer by simp
  have e: "populate_g (length (builders heap0)) (table_entry ?b [] header heap0) =
             Inr \<lparr>builders = [?b, ?b], buffers = [header @ ''c = \"y\"\<newline>n = 3\<newline>'']\<rparr>"
    for header
    by (simp add: table_entry_def model_defs)
  from table_runs_callback_on_child [OF heap0_root f, where name = "''g''" and g = populate_g] e
  show ?thesis by simp
qed

subsection \<open>C8: the blank line\<close>

text \<open>
  C8, as stated: \<open>AddNewLine\<close> appends one newline character and no prefix, in every state
  of the builder. \<open>AddNewLine\<close> goes through \<open>write\<close> like every other emitter, and \<open>write\<close>
  puts the prefix in front. After an array on a builder whose \<open>IndentSize\<close> was set to 0
  the prefix is two spaces, and \<open>AddNewLine\<close> then appends two spaces and the newline.
\<close>

theorem AddNewLine_writes_prefix:
  "andThen (run [set_IndentSize root 0, AddIntArray root ''a'' []] heap0) (String root)
     = Inr ''a = [\<newline>  ]\<newline>'' \<and>
   andThen (run [set_IndentSize root 0, AddIntArray root ''a'' [], AddNewLine root] heap0)
     (String root)
     = Inr ''a = [\<newline>  ]\<newline>  \<newline>''"
  by (simp add: model_defs)

text \<open>
  C8, amended. On a builder with an allocated buffer, \<open>AddNewLine\<close> appends the current
  prefix followed by one newline character, and changes nothing else; with an empty prefix
  that is the newline character alone.
\<close>

theorem AddNewLine_appends_prefix_newline:
  assumes "builder_at h w = Some b" and "buffer_at h (buf b) = Some bs"
  shows "AddNewLine w h =
           Inr (h\<lparr>buffers := (buffers h)[buf b := bs @ indentation b @ ''\<newline>'']\<rparr>)"
  unfolding AddNewLine_def using assms by (rule writef_valid)

theorem AddNewLine_appends_prefix_newline_witness:
  "AddNewLine 0 \<lparr>builders = [\<lparr>IndentSize = 0, indentation = ''  '', buf = 0\<rparr>],
                  buffers = [''x'']\<rparr> =
     Inr \<lparr>builders = [\<lparr>IndentSize = 0, indentation = ''  '', buf = 0\<rparr>],
          buffers = [''x  \<newline>'']\<rparr> \<and>
   AddNewLine root heap0 =
     Inr \<lparr>builders = [\<lparr>IndentSize = 2, indentation = [], buf = 0\<rparr>],
          buffers = [''\<newline>'']\<rparr>"
proof -
  let ?b = "\<lparr>IndentSize = 0, indentation = ''  '', buf = 0\<rparr>"
  let ?h = "\<lparr>builders = [?b], buffers = [''x'']\<rparr>"
  let ?r = "\<lparr>IndentSize = 2, indentation = [], buf = 0\<rparr>"
  have 1: "builder_at ?h 0 = Some ?b" by (simp add: builder_at_def)
  have 2: "buffer_at ?h (buf ?b) = Some ''x''" by (simp add: buffer_at_def)
  have 3: "buffer_at heap0 (buf ?r) = Some []" using heap0_buffer by simp
  from AddNewLine_appends_prefix_newline [OF 1 2]
    AddNewLine_appends_prefix_newline [OF heap0_root 3]
  show ?thesis by (simp add: heap0_def New_def empty_heap_def)
qed

subsection \<open>C9: unindent at depth zero\<close>

text \<open>
  C9. On a builder whose prefix is empty, \<open>unindent\<close> returns without a panic and leaves the
  heap, and with it the empty prefix, as it was, whatever \<open>IndentSize\<close> is.
\<close>

theorem unindent_at_zero_depth:
  assumes "builder_at h w = Some b" and "indentation b = []"
  shows "unindent w h = Inr h"
  using assms by (simp add: unindent_def deref_def)

theorem unindent_at_zero_depth_witness:
  "unindent 0 \<lparr>builders = [\<lparr>IndentSize = - 5, indentation = [], buf = 0\<rparr>], buffers = [[]]\<rparr>
     = Inr \<lparr>builders = [\<lparr>IndentSize = - 5, indentation = [], buf = 0\<rparr>], buffers = [[]]\<rparr>"
proof -
  let ?b = "\<lparr>IndentSize = - 5, indentation = [], buf = 0\<rparr>"
  let ?h = "\<lparr>builders = [?b], buffers = [[]]\<rparr>"
  have 1: "builder_at ?h 0 = Some ?b" by (simp add: builder_at_def)
  have 2: "indentation ?b = []" by simp
  show ?thesis using 1 2 by (rule unindent_at_zero_depth)
qed

subsection \<open>C10: the fields of the parent\<close>

text \<open>
  C10, as stated: for every callback the table emitters leave \<open>IndentSize\<close> and the prefix
  of the parent as they were. A callback is a Go closure and may hold the pointer to the
  parent: one that assigns 9 to the \<open>IndentSize\<close> of the parent leaves it at 9 after
  \<open>AddTable\<close>, where it was 2 before.
\<close>

theorem callback_can_assign_parent:
  "builder_at heap0 root = Some \<lparr>IndentSize = 2, indentation = [], buf = 0\<rparr> \<and>
   AddTable root ''t'' (Some assign_parent) heap0 =
     Inr \<lparr>builders = [\<lparr>IndentSize = 9, indentation = [], buf = 0\<rparr>,
                      \<lparr>IndentSize = 2, indentation = [], buf = 0\<rparr>],
          buffers = [''[t]\<newline>'']\<rparr>"
  by (simp add: model_defs)

text \<open>
  C10, amended. The child handed to a table callback is a struct of its own: of the parent
  it shares the buffer only. For every callback that does not itself assign to the struct
  of the parent \<open>w\<close> (run on any builder but \<open>w\<close>, in any heap that holds \<open>w\<close>, it leaves
  the struct of \<open>w\<close> as it is), \<open>AddTable\<close> and \<open>AddArrayOfTables\<close> leave the \<open>IndentSize\<close>
  and the prefix of the parent, and its buffer pointer, as they were, whatever the callback
  does to the child: assigning to its fields, indenting it, opening further tables on it.
\<close>

theorem table_keeps_parent_fields:
  assumes b: "builder_at h w = Some b"
    and frame: "\<And>c h1 h2. c \<noteq> w \<Longrightarrow> w < length (builders h1) \<Longrightarrow> g c h1 = Inr h2 \<Longrightarrow>
                  builder_at h2 w = builder_at h1 w"
  shows "(\<forall>h'. AddTable w name (Some g) h = Inr h' \<longrightarrow> builder_at h' w = Some b) \<and>
         (\<forall>h'. AddArrayOfTables w name (Some g) h = Inr h' \<longrightarrow> builder_at h' w = Some b)"
proof -
  from b have al: "w < length (builders h)"
    by (simp add: builder_at_Some)
  show ?thesis
    using table_keeps [OF al frame] b
    unfolding AddTable_def AddArrayOfTables_def by auto
qed

theorem table_keeps_parent_fields_witness:
  "AddTable root ''t'' (Some nested) heap0 =
     Inr \<lparr>builders = [\<lparr>IndentSize = 2, indentation = [], buf = 0\<rparr>,
                      \<lparr>IndentSize = 7, indentation = ''  '', buf = 0\<rparr>,
                      \<lparr>IndentSize = 7, indentation = ''  '', buf = 0\<rparr>],
          buffers = [''[t]\<newline>  [x]\<newline>  c = \"y\"\<newline>  n = 3\<newline>'']\<rparr> \<and>
   builder_at \<lparr>builders = [\<lparr>IndentSize = 2, indentation = [], buf = 0\<rparr>,
                      \<lparr>IndentSize = 7, indentation = ''  '', buf = 0\<rparr>,
                      \<lparr>IndentSize = 7, indentation = ''  '', buf = 0\<rparr>],
          buffers = [''[t]\<newline>  [x]\<newline>  c = \"y\"\<newline>  n = 3\<newline>'']\<rparr> root =
     Some \<lparr>IndentSize = 2, indentation = [], buf = 0\<rparr>"
proof -
  let ?h' = "\<lparr>builders = [\<lparr>IndentSize = 2, indentation = [], buf = 0\<rparr>,
                      \<lparr>IndentSize = 7, indentation = ''  '', buf = 0\<rparr>,
                      \<lparr>IndentSize = 7, indentation = ''  '', buf = 0\<rparr>],
          buffers = [''[t]\<newline>  [x]\<newline>  c = \"y\"\<newline>  n = 3\<newline>'']\<rparr>"
  have r: "AddTable root ''t'' (Some nested) heap0 = Inr ?h'"
    by (simp add: model_defs nested_def)
  have "\<forall>h'. AddTable root ''t'' (Some nested) heap0 = Inr h' \<longrightarrow>
          builder_at h' root = Some \<lparr>IndentSize = 2, indentation = [], buf = 0\<rparr>"
    by (rule conjunct1 [OF table_keeps_parent_fields [OF heap0_root]]) (rule nested_keeps)
  then have "builder_at ?h' root = Some \<lparr>IndentSize = 2, indentation = [], buf = 0\<rparr>"
    using r by blast
  with r show ?thesis by simp
qed

end
